theory Spec2Isabelle
  imports Main
begin

section \<open>The document, the models and the views\<close>

text \<open>
  The view of \<^verbatim>\<open>src/nbsvg/js/SVGView.js\<close> works on three kinds of objects, all
  mutable and all reached through references: the elements of the document (through jQuery),
  the models of the notebook (through \<^verbatim>\<open>get\<close> and \<^verbatim>\<open>on\<close>), and the views themselves
  (\<^verbatim>\<open>this\<close>). The state of the program is an explicit store of the three.
\<close>

type_synonym ref = nat

text \<open>
  What an element holds: its child elements, in order, and the markup injected
  into it by jQuery's \<^verbatim>\<open>.html(string)\<close>, kept as the raw string.
\<close>

datatype node = Child ref | Markup string

text \<open>
  An element of the document. \<open>attrs\<close> are its markup attributes, what jQuery's
  \<^verbatim>\<open>.attr\<close> writes; \<open>style\<close> are its inline style declarations, what jQuery's
  \<^verbatim>\<open>.css\<close> writes (the view never calls it).
\<close>

record element =
  tag :: string
  attrs :: "string \<rightharpoonup> string"
  style :: "string \<rightharpoonup> string"
  content :: "node list"

text \<open>The methods of a view that are handed to a model as callbacks.\<close>

datatype callback = SvgChanged

text \<open>
  A model: its attributes by name (\<^verbatim>\<open>get\<close> of an absent name is \<^verbatim>\<open>undefined\<close>, here
  \<open>None\<close>) and the listeners registered by \<^verbatim>\<open>on(event, callback, context)\<close>, in
  the order of registration.
\<close>

record model =
  attributes :: "string \<rightharpoonup> string"
  listeners :: "(string \<times> callback \<times> ref) list"

text \<open>
  A view: \<^verbatim>\<open>this.$el\<close> (the host element), \<^verbatim>\<open>this.model\<close>, and \<^verbatim>\<open>this.$svg\<close>,
  which is \<^verbatim>\<open>undefined\<close> (\<open>None\<close>) until \<^verbatim>\<open>render\<close> assigns it.
\<close>

record view =
  el :: ref
  model_ref :: ref
  svg_el :: "ref option"

text \<open>The calls the view makes on jQuery and on its model, recorded in the order made.\<close>

datatype call =
    JCreate ref string
  | JAppend ref ref
  | JHtml ref "string option"
  | JAttr ref string string
  | ModelGet ref string
  | ModelOn ref string callback ref

record world =
  elements :: "element list"
  models :: "ref \<rightharpoonup> model"
  views :: "ref \<rightharpoonup> view"
  calls :: "call list"

text \<open>
  Every failure of the source is a JavaScript \<^verbatim>\<open>TypeError\<close>, from reading a property of
  \<^verbatim>\<open>undefined\<close>; the constructor says which object was undefined.
\<close>

datatype error = SvgUndefined | ModelUndefined | ViewUndefined

section \<open>The services the view consumes\<close>

subsection \<open>jQuery\<close>

text \<open>
  Modelled from the spec: jQuery is not part of the repository; the spec (sections 6 and 9)
  names the capabilities used: creating an element, attaching a child, assigning an
  attribute, and replacing the inner markup of an element.

  \<^verbatim>\<open>$('<svg>')\<close> makes a new element, with the tag \<^verbatim>\<open>svg\<close>, no attribute and nothing
  inside; the new element is the next one of the store.
\<close>

definition jq_create :: "string \<Rightarrow> world \<Rightarrow> ref \<times> world" where
  "jq_create t w =
     (length (elements w),
      w\<lparr>elements := elements w @ [\<lparr>tag = t, attrs = Map.empty, style = Map.empty, content = []\<rparr>],
        calls := calls w @ [JCreate (length (elements w)) t]\<rparr>)"

text \<open>
  The update of one element of the store. A reference out of the store cannot exist in
  JavaScript; the model leaves the store as it is there (as \<open>list_update\<close> does).
\<close>

definition upd_el :: "ref \<Rightarrow> (element \<Rightarrow> element) \<Rightarrow> element list \<Rightarrow> element list" where
  "upd_el r f es = (if r < length es then es[r := f (es ! r)] else es)"

text \<open>Modelled from the spec: \<^verbatim>\<open>parent.append(child)\<close> (jQuery) adds the child after the content the parent has.\<close>

definition jq_append :: "ref \<Rightarrow> ref \<Rightarrow> world \<Rightarrow> world" where
  "jq_append p c w =
     w\<lparr>elements := upd_el p (\<lambda>e. e\<lparr>content := content e @ [Child c]\<rparr>) (elements w),
       calls := calls w @ [JAppend p c]\<rparr>"

text \<open>Modelled from the spec: \<^verbatim>\<open>e.attr({name: value})\<close> (jQuery) assigns one markup attribute and nothing else.\<close>

definition jq_attr :: "ref \<Rightarrow> string \<Rightarrow> string \<Rightarrow> world \<Rightarrow> world" where
  "jq_attr r n v w =
     w\<lparr>elements := upd_el r (\<lambda>e. e\<lparr>attrs := (attrs e)(n \<mapsto> v)\<rparr>) (elements w),
       calls := calls w @ [JAttr r n v]\<rparr>"

text \<open>
  Modelled from the spec: \<^verbatim>\<open>e.html(x)\<close> (jQuery) with a string replaces the whole content of the
  element by that markup, kept raw. With \<^verbatim>\<open>undefined\<close> the call of jQuery is a read and
  writes nothing.
\<close>

definition jq_html :: "ref \<Rightarrow> string option \<Rightarrow> world \<Rightarrow> world" where
  "jq_html r x w =
     w\<lparr>elements := (case x of None \<Rightarrow> elements w
                     | Some s \<Rightarrow> upd_el r (\<lambda>e. e\<lparr>content := [Markup s]\<rparr>) (elements w)),
       calls := calls w @ [JHtml r x]\<rparr>"

subsection \<open>The model's attributes and subscriptions\<close>

text \<open>
  Modelled from the spec: the model class is not part of the repository; the spec (section 6)
  gives \<^verbatim>\<open>get(attributeName) -> value\<close> and \<^verbatim>\<open>on(eventName, callback, context)\<close>.
  A view whose \<^verbatim>\<open>this.model\<close> is no model fails on the call.
\<close>

definition model_get :: "ref \<Rightarrow> string \<Rightarrow> world \<Rightarrow> error + (string option \<times> world)" where
  "model_get m n w =
     (case models w m of
        None \<Rightarrow> Inl ModelUndefined
      | Some md \<Rightarrow> Inr (attributes md n, w\<lparr>calls := calls w @ [ModelGet m n]\<rparr>))"

text \<open>
  Modelled from the spec: \<^verbatim>\<open>on(eventName, callback, context)\<close> of the model (section 6)
  registers the callback with its context, after the listeners the model has.
\<close>

definition model_on :: "ref \<Rightarrow> string \<Rightarrow> callback \<Rightarrow> ref \<Rightarrow> world \<Rightarrow> error + world" where
  "model_on m ev cb ctx w =
     (case models w m of
        None \<Rightarrow> Inl ModelUndefined
      | Some md \<Rightarrow>
          Inr (w\<lparr>models := (models w)(m \<mapsto> md\<lparr>listeners := listeners md @ [(ev, cb, ctx)]\<rparr>),
                 calls := calls w @ [ModelOn m ev cb ctx]\<rparr>))"

section \<open>SVGView\<close>

text \<open>
  The two methods of \<^verbatim>\<open>SVGView\<close>; the copies of the view in the repository have the
  same two, statement for statement. A method takes the reference of its \<^verbatim>\<open>this\<close> and
  the state, and returns the new state, or the error thrown. (A thrown error is returned
  alone: no property below concerns the state an exception leaves behind.) \<^verbatim>\<open>ElementView\<close>
  has an empty \<^verbatim>\<open>render\<close> and is never returned by the module.

  \<^verbatim>\<open>svg_changed: function() { this.$svg.html(this.model.get('svg')) }\<close>

  JavaScript evaluates \<^verbatim>\<open>this.$svg.html\<close> before the argument, so an undefined
  \<^verbatim>\<open>this.$svg\<close> fails before the model is read.
\<close>

definition svg_changed :: "ref \<Rightarrow> world \<Rightarrow> error + world" where
  "svg_changed this w =
     (case views w this of
        None \<Rightarrow> Inl ViewUndefined
      | Some v \<Rightarrow>
          (case svg_el v of
             None \<Rightarrow> Inl SvgUndefined
           | Some s \<Rightarrow>
               (case model_get (model_ref v) ''svg'' w of
                  Inl e \<Rightarrow> Inl e
                | Inr (x, w1) \<Rightarrow> Inr (jq_html s x w1))))"

text \<open>
  \<^verbatim>\<open>
  render: function(){
      this.$svg = $('<svg>');
      this.$el.append(this.$svg);
      this.svg_changed();
      this.$el.attr({overflow: 'hidden'});
      this.model.on('change:svg', this.svg_changed, this);
  }
  \<close>
\<close>

definition render :: "ref \<Rightarrow> world \<Rightarrow> error + world" where
  "render this w =
     (case views w this of
        None \<Rightarrow> Inl ViewUndefined
      | Some v \<Rightarrow>
          (case jq_create ''svg'' w of
             (s, w1) \<Rightarrow>
               (let w2 = w1\<lparr>views := (views w1)(this \<mapsto> v\<lparr>svg_el := Some s\<rparr>)\<rparr>;
                    w3 = jq_append (el v) s w2
                in case svg_changed this w3 of
                     Inl e \<Rightarrow> Inl e
                   | Inr w4 \<Rightarrow>
                       model_on (model_ref v) ''change:svg'' SvgChanged this
                         (jq_attr (el v) ''overflow'' ''hidden'' w4))))"

section \<open>Change notifications\<close>

text \<open>The model calls a registered callback with its context as \<^verbatim>\<open>this\<close>.\<close>

fun invoke :: "callback \<Rightarrow> ref \<Rightarrow> world \<Rightarrow> error + world" where
  "invoke SvgChanged ctx w = svg_changed ctx w"

text \<open>
  Modelled from the spec: the notification service is not part of the repository. By the
  spec (sections 5 and 7) the notifications are delivered one after the other, each one
  calling the callbacks registered for its event; a callback that throws ends the delivery.
\<close>

fun deliver :: "(string \<times> callback \<times> ref) list \<Rightarrow> string \<Rightarrow> world \<Rightarrow> error + world" where
  "deliver [] ev w = Inr w"
| "deliver ((e, cb, ctx) # ls) ev w =
     (if e = ev
      then (case invoke cb ctx w of Inl x \<Rightarrow> Inl x | Inr w' \<Rightarrow> deliver ls ev w')
      else deliver ls ev w)"

text \<open>
  Modelled from the spec: one change notification of a model, delivered to the listeners it
  has when the delivery starts.
\<close>

definition notify :: "ref \<Rightarrow> string \<Rightarrow> world \<Rightarrow> error + world" where
  "notify m ev w =
     (case models w m of
        None \<Rightarrow> Inl ModelUndefined
      | Some md \<Rightarrow> deliver (listeners md) ev w)"

text \<open>
  Modelled from the spec: an update of an attribute by the owner of the model. By the
  glossary a change notification is delivered whenever the value of the named attribute
  changes; the event is named \<^verbatim>\<open>change:<attributeName>\<close> (section 6).
\<close>

definition model_set :: "ref \<Rightarrow> string \<Rightarrow> string \<Rightarrow> world \<Rightarrow> error + world" where
  "model_set m n x w =
     (case models w m of
        None \<Rightarrow> Inl ModelUndefined
      | Some md \<Rightarrow>
          (let w1 = w\<lparr>models := (models w)(m \<mapsto> md\<lparr>attributes := (attributes md)(n \<mapsto> x)\<rparr>)\<rparr>
           in if attributes md n = Some x then Inr w1
              else notify m (''change:'' @ n) w1))"

text \<open>
  Modelled from the spec: a sequence of updates of one attribute (P2), each with its
  notification delivered before the next update.
\<close>

fun updates :: "ref \<Rightarrow> string \<Rightarrow> string list \<Rightarrow> world \<Rightarrow> error + world" where
  "updates m n [] w = Inr w"
| "updates m n (x # xs) w =
     (case model_set m n x w of Inl e \<Rightarrow> Inl e | Inr w' \<Rightarrow> updates m n xs w')"

text \<open>Modelled from the spec: \<open>k\<close> notifications of one event (P4), one after the other.\<close>

fun notifications :: "nat \<Rightarrow> ref \<Rightarrow> string \<Rightarrow> world \<Rightarrow> error + world" where
  "notifications 0 m ev w = Inr w"
| "notifications (Suc k) m ev w =
     (case notify m ev w of Inl e \<Rightarrow> Inl e | Inr w' \<Rightarrow> notifications k m ev w')"

section \<open>Observations\<close>

text \<open>
  What the Container of a view holds: the content of the element \<^verbatim>\<open>this.$svg\<close>.
\<close>

definition svg_content :: "ref \<Rightarrow> world \<Rightarrow> node list option" where
  "svg_content this w =
     (case views w this of
        None \<Rightarrow> None
      | Some v \<Rightarrow>
          (case svg_el v of
             None \<Rightarrow> None
           | Some s \<Rightarrow> if s < length (elements w) then Some (content (elements w ! s)) else None))"

text \<open>
  The value \<^verbatim>\<open>this.model.get('svg')\<close> returns now.
\<close>

definition model_svg :: "ref \<Rightarrow> world \<Rightarrow> string option" where
  "model_svg this w =
     (case views w this of
        None \<Rightarrow> None
      | Some v \<Rightarrow> (case models w (model_ref v) of None \<Rightarrow> None | Some md \<Rightarrow> attributes md ''svg''))"

text \<open>
  The content of an element into which the markup was injected; a new element holds nothing.
\<close>

fun markup_of :: "string option \<Rightarrow> node list" where
  "markup_of None = []"
| "markup_of (Some x) = [Markup x]"

text \<open>
  A view is mounted once \<^verbatim>\<open>this.$svg\<close> is assigned; its model is a live object.
\<close>

definition mounted :: "world \<Rightarrow> ref \<Rightarrow> bool" where
  "mounted w this =
     (case views w this of
        None \<Rightarrow> False
      | Some v \<Rightarrow> svg_el v \<noteq> None \<and> models w (model_ref v) \<noteq> None)"

text \<open>
  The states the host framework and the identity of JavaScript objects guarantee: the host
  element of a view and its Container are elements of the document, two views never hold
  the same Container (each \<^verbatim>\<open>render\<close> makes its own), and the callbacks registered on a
  model belong to mounted views (only \<^verbatim>\<open>render\<close> registers one, after it assigned
  \<^verbatim>\<open>this.$svg\<close>).
\<close>

definition well_formed :: "world \<Rightarrow> bool" where
  "well_formed w \<longleftrightarrow>
     (\<forall>this v. views w this = Some v \<longrightarrow> el v < length (elements w)) \<and>
     (\<forall>this v s. views w this = Some v \<longrightarrow> svg_el v = Some s \<longrightarrow> s < length (elements w)) \<and>
     (\<forall>a b va vb s. views w a = Some va \<longrightarrow> views w b = Some vb \<longrightarrow>
         svg_el va = Some s \<longrightarrow> svg_el vb = Some s \<longrightarrow> a = b) \<and>
     (\<forall>m md e cb ctx. models w m = Some md \<longrightarrow> (e, cb, ctx) \<in> set (listeners md) \<longrightarrow> mounted w ctx)"

text \<open>
  The view has its \<^verbatim>\<open>svg_changed\<close> registered for \<^verbatim>\<open>change:svg\<close> on its own model.
\<close>

definition subscribed :: "world \<Rightarrow> ref \<Rightarrow> bool" where
  "subscribed w this =
     (case views w this of
        None \<Rightarrow> False
      | Some v \<Rightarrow>
          (case models w (model_ref v) of
             None \<Rightarrow> False
           | Some md \<Rightarrow> (''change:svg'', SvgChanged, this) \<in> set (listeners md)))"

text \<open>
  The Container shows the value the model has now.
\<close>

definition synced :: "world \<Rightarrow> ref \<Rightarrow> bool" where
  "synced w this \<longleftrightarrow> svg_content this w = Some (markup_of (model_svg this w))"

text \<open>
  A listener of the event \<open>ev\<close> whose context is the view \<open>this\<close>.
\<close>

fun listens :: "ref \<Rightarrow> string \<Rightarrow> (string \<times> callback \<times> ref) \<Rightarrow> bool" where
  "listens this ev (e, cb, ctx) = (e = ev \<and> ctx = this)"

text \<open>
  The replacements of the content of the element \<open>s\<close> among the calls made: the calls of
  \<^verbatim>\<open>.html\<close> on it with a string.
\<close>

fun is_replacement :: "ref \<Rightarrow> call \<Rightarrow> bool" where
  "is_replacement s (JHtml r (Some x)) = (r = s)"
| "is_replacement s _ = False"

definition replacements :: "ref \<Rightarrow> call list \<Rightarrow> nat" where
  "replacements s cs = length (filter (is_replacement s) cs)"

text \<open>
  In a sequence of calls, the first \<open>x\<close> is followed by a \<open>y\<close>.
\<close>

fun precedes :: "'a \<Rightarrow> 'a \<Rightarrow> 'a list \<Rightarrow> bool" where
  "precedes x y [] = False"
| "precedes x y (c # cs) = (if c = x then y \<in> set cs else precedes x y cs)"

text \<open>
  The calls of \<^verbatim>\<open>.html\<close> on the element \<open>s\<close> among the calls made, whatever the argument.
\<close>

fun is_html_call :: "ref \<Rightarrow> call \<Rightarrow> bool" where
  "is_html_call s (JHtml r x) = (r = s)"
| "is_html_call s _ = False"

definition html_calls :: "ref \<Rightarrow> call list \<Rightarrow> nat" where
  "html_calls s cs = length (filter (is_html_call s) cs)"




text \<open>
  The state in which the element \<open>s\<close> has come to hold the content \<open>c\<close>, by whatever
  means: the content a later sync finds and replaces.
\<close>

definition set_content :: "ref \<Rightarrow> node list \<Rightarrow> world \<Rightarrow> world" where
  "set_content s c w = w\<lparr>elements := upd_el s (\<lambda>e. e\<lparr>content := c\<rparr>) (elements w)\<rparr>"

subsection \<open>Concrete notebooks\<close>

text \<open>
  One host element, one model holding the markup of the spec's P1, one view not yet mounted.
\<close>

definition host0 :: element where
  "host0 = \<lparr>tag = ''div'', attrs = Map.empty, style = Map.empty, content = []\<rparr>"

definition view0 :: view where
  "view0 = \<lparr>el = 0, model_ref = 0, svg_el = None\<rparr>"

definition model0 :: model where
  "model0 = \<lparr>attributes = [''svg'' \<mapsto> ''<circle r='5'/>''], listeners = []\<rparr>"

definition world0 :: world where
  "world0 = \<lparr>elements = [host0], models = [0 \<mapsto> model0], views = [0 \<mapsto> view0], calls = []\<rparr>"

text \<open>
  The same notebook after \<^verbatim>\<open>render\<close>, and after one more \<^verbatim>\<open>svg_changed\<close>.
\<close>

definition world1 :: world where
  "world1 =
     \<lparr>elements =
        [\<lparr>tag = ''div'', attrs = [''overflow'' \<mapsto> ''hidden''], style = Map.empty, content = [Child 1]\<rparr>,
         \<lparr>tag = ''svg'', attrs = Map.empty, style = Map.empty, content = [Markup ''<circle r='5'/>'']\<rparr>],
      models = [0 \<mapsto> \<lparr>attributes = [''svg'' \<mapsto> ''<circle r='5'/>''],
                         listeners = [(''change:svg'', SvgChanged, 0)]\<rparr>],
      views = [0 \<mapsto> \<lparr>el = 0, model_ref = 0, svg_el = Some 1\<rparr>],
      calls = [JCreate 1 ''svg'', JAppend 0 1, ModelGet 0 ''svg'',
               JHtml 1 (Some ''<circle r='5'/>''), JAttr 0 ''overflow'' ''hidden'',
               ModelOn 0 ''change:svg'' SvgChanged 0]\<rparr>"


text \<open>
  Two views, each with its own host element and its own model.
\<close>

definition view1 :: view where
  "view1 = \<lparr>el = 1, model_ref = 1, svg_el = None\<rparr>"

definition model1 :: model where
  "model1 = \<lparr>attributes = [''svg'' \<mapsto> ''<rect/>''], listeners = []\<rparr>"

definition world2 :: world where
  "world2 = \<lparr>elements = [host0, host0], models = [0 \<mapsto> model0, 1 \<mapsto> model1],
              views = [0 \<mapsto> view0, 1 \<mapsto> view1], calls = []\<rparr>"

text \<open>
  A notebook whose model has no \<^verbatim>\<open>svg\<close> attribute: \<^verbatim>\<open>get('svg')\<close> is \<^verbatim>\<open>undefined\<close>.
\<close>

definition model_none :: model where
  "model_none = \<lparr>attributes = Map.empty, listeners = []\<rparr>"

definition world3 :: world where
  "world3 = \<lparr>elements = [host0], models = [0 \<mapsto> model_none], views = [0 \<mapsto> view0], calls = []\<rparr>"

section \<open>Facts about the operations\<close>

lemma mounted_iff:
  "mounted w this \<longleftrightarrow>
     (\<exists>v s. views w this = Some v \<and> svg_el v = Some s \<and> models w (model_ref v) \<noteq> None)"
  by (auto simp: mounted_def split: option.splits)

lemma subscribed_iff:
  "subscribed w this \<longleftrightarrow>
     (\<exists>v md. views w this = Some v \<and> models w (model_ref v) = Some md \<and>
        (''change:svg'', SvgChanged, this) \<in> set (listeners md))"
  by (auto simp: subscribed_def split: option.splits)

lemma length_upd_el [simp]: "length (upd_el r f es) = length es"
  by (simp add: upd_el_def)

lemma nth_upd_el: "i < length es \<Longrightarrow> upd_el r f es ! i = (if i = r then f (es ! i) else es ! i)"
  by (simp add: upd_el_def)

lemma jq_html_simps [simp]:
  "views (jq_html s x w) = views w"
  "models (jq_html s x w) = models w"
  "length (elements (jq_html s x w)) = length (elements w)"
  "calls (jq_html s x w) = calls w @ [JHtml s x]"
  by (simp_all add: jq_html_def split: option.splits)

lemma jq_html_nth:
  "i < length (elements w) \<Longrightarrow>
   elements (jq_html s x w) ! i =
     (case x of None \<Rightarrow> elements w ! i
      | Some y \<Rightarrow> if i = s then (elements w ! i)\<lparr>content := [Markup y]\<rparr> else elements w ! i)"
  by (simp add: jq_html_def nth_upd_el split: option.splits)

lemma set_content_simps [simp]:
  "views (set_content s c w) = views w"
  "models (set_content s c w) = models w"
  "calls (set_content s c w) = calls w"
  "length (elements (set_content s c w)) = length (elements w)"
  by (simp_all add: set_content_def)

lemma set_content_nth:
  "s < length (elements w) \<Longrightarrow> content (elements (set_content s c w) ! s) = c"
  by (simp add: set_content_def nth_upd_el)

lemma svg_changed_Inr:
  "views w this = Some v \<Longrightarrow> svg_el v = Some s \<Longrightarrow> models w (model_ref v) = Some md \<Longrightarrow>
   svg_changed this w = Inr (jq_html s (attributes md ''svg'') (w\<lparr>calls := calls w @ [ModelGet (model_ref v) ''svg'']\<rparr>))"
  by (simp add: svg_changed_def model_get_def)

lemma svg_changed_InrD:
  "svg_changed this w = Inr w' \<Longrightarrow>
   \<exists>v s md. views w this = Some v \<and> svg_el v = Some s \<and> models w (model_ref v) = Some md \<and>
     w' = jq_html s (attributes md ''svg'') (w\<lparr>calls := calls w @ [ModelGet (model_ref v) ''svg'']\<rparr>)"
  by (auto simp: svg_changed_def model_get_def split: option.splits sum.splits)

lemma svg_changed_calls:
  assumes "svg_changed ctx w = Inr w'" "views w ctx = Some u" "svg_el u = Some t"
  shows "calls w' = calls w @ [ModelGet (model_ref u) ''svg'', JHtml t (model_svg ctx w)]"
  using svg_changed_InrD[OF assms(1)] assms(2-)
  by (auto simp: model_svg_def)

lemma render_Inr:
  assumes "views w this = Some v" "models w (model_ref v) = Some md"
  defines "s \<equiv> length (elements w)"
  defines "es1 \<equiv> upd_el (el v) (\<lambda>e. e\<lparr>content := content e @ [Child s]\<rparr>)
                   (elements w @ [\<lparr>tag = ''svg'', attrs = Map.empty, style = Map.empty, content = []\<rparr>])"
  shows "\<exists>w'. render this w = Inr w' \<and>
     elements w' = upd_el (el v) (\<lambda>e. e\<lparr>attrs := (attrs e)(''overflow'' \<mapsto> ''hidden'')\<rparr>)
        (case attributes md ''svg'' of None \<Rightarrow> es1 | Some x \<Rightarrow> upd_el s (\<lambda>e. e\<lparr>content := [Markup x]\<rparr>) es1) \<and>
     models w' = (models w)(model_ref v \<mapsto> md\<lparr>listeners := listeners md @ [(''change:svg'', SvgChanged, this)]\<rparr>) \<and>
     views w' = (views w)(this \<mapsto> v\<lparr>svg_el := Some s\<rparr>) \<and>
     calls w' = calls w @ [JCreate s ''svg'', JAppend (el v) s,
        ModelGet (model_ref v) ''svg'', JHtml s (attributes md ''svg''),
        JAttr (el v) ''overflow'' ''hidden'', ModelOn (model_ref v) ''change:svg'' SvgChanged this]"
  using assms(1,2) unfolding s_def es1_def
  by (simp add: render_def jq_create_def jq_append_def svg_changed_def model_get_def jq_html_def
      jq_attr_def model_on_def Let_def split: option.splits)

lemma render_InrD:
  "render this w = Inr w' \<Longrightarrow> \<exists>v md. views w this = Some v \<and> models w (model_ref v) = Some md"
  by (auto simp: render_def jq_create_def jq_append_def svg_changed_def model_get_def Let_def
      split: option.splits sum.splits)

subsection \<open>Well-formed states are kept\<close>

lemma wf_cong:
  "views w' = views w \<Longrightarrow> models w' = models w \<Longrightarrow> length (elements w') = length (elements w) \<Longrightarrow>
   well_formed w' = well_formed w"
  by (simp add: well_formed_def mounted_iff)

lemma model_svg_cong:
  "views w' = views w \<Longrightarrow> models w' = models w \<Longrightarrow> model_svg c w' = model_svg c w"
  by (auto simp: model_svg_def split: option.splits)

lemma mounted_cong:
  "views w' = views w \<Longrightarrow> dom (models w') = dom (models w) \<Longrightarrow> mounted w' c = mounted w c"
  unfolding mounted_iff by (auto simp: dom_def set_eq_iff)

lemma svg_content_cong:
  "views w' = views w \<Longrightarrow> length (elements w') = length (elements w) \<Longrightarrow>
   views w this = Some v \<Longrightarrow> svg_el v = Some s \<Longrightarrow> elements w' ! s = elements w ! s \<Longrightarrow>
   svg_content this w' = svg_content this w"
  by (simp add: svg_content_def)

lemma wf_render:
  assumes "well_formed w" "render this w = Inr w'"
  shows "well_formed w'"
proof -
  from render_InrD[OF assms(2)] obtain v md where
    v: "views w this = Some v" and md: "models w (model_ref v) = Some md" by blast
  from render_Inr[OF v md] assms(2) have
    E: "length (elements w') = Suc (length (elements w))" and
    M: "models w' = (models w)(model_ref v \<mapsto> md\<lparr>listeners := listeners md @ [(''change:svg'', SvgChanged, this)]\<rparr>)" and
    V: "views w' = (views w)(this \<mapsto> v\<lparr>svg_el := Some (length (elements w))\<rparr>)"
    by (auto split: option.splits)
  have mono: "mounted w' c" if "mounted w c" for c
    using that v md unfolding mounted_iff M V by auto
  have this': "mounted w' this"
    using v md unfolding mounted_iff M V by auto
  show ?thesis
    unfolding well_formed_def
  proof (intro conjI allI impI)
    fix t u assume "views w' t = Some u"
    then show "el u < length (elements w')"
      using assms(1) v unfolding well_formed_def V E by (auto split: if_splits simp: less_Suc_eq)
  next
    fix t u s assume "views w' t = Some u" "svg_el u = Some s"
    then show "s < length (elements w')"
      using assms(1) v unfolding well_formed_def V E by (auto split: if_splits simp: less_Suc_eq)
  next
    fix a b va vb s
    assume "views w' a = Some va" "views w' b = Some vb" "svg_el va = Some s" "svg_el vb = Some s"
    then show "a = b"
      using assms(1) v unfolding well_formed_def V by (fastforce split: if_splits)
  next
    fix m md' e cb ctx
    assume "models w' m = Some md'" "(e, cb, ctx) \<in> set (listeners md')"
    then have "mounted w ctx \<or> ctx = this"
      using assms(1) md unfolding well_formed_def M by (auto split: if_splits)
    then show "mounted w' ctx" using mono this' by blast
  qed
qed

lemma wf_set_attribute:
  assumes "well_formed w" "models w m = Some md"
  shows "well_formed (w\<lparr>models := (models w)(m \<mapsto> md\<lparr>attributes := A\<rparr>)\<rparr>)"
proof -
  define w1 where "w1 = w\<lparr>models := (models w)(m \<mapsto> md\<lparr>attributes := A\<rparr>)\<rparr>"
  have V1: "views w1 = views w" and L1: "length (elements w1) = length (elements w)"
    and M1: "models w1 = (models w)(m \<mapsto> md\<lparr>attributes := A\<rparr>)" by (simp_all add: w1_def)
  have dom1: "dom (models w1) = dom (models w)" using assms(2) by (auto simp: M1)
  have "well_formed w1"
    unfolding well_formed_def
  proof (intro conjI allI impI)
    fix m' md' e cb ctx
    assume "models w1 m' = Some md'" "(e, cb, ctx) \<in> set (listeners md')"
    then have "mounted w ctx"
      using assms unfolding well_formed_def M1 by (auto split: if_splits)
    then show "mounted w1 ctx" using mounted_cong[OF V1 dom1] by simp
  qed (use assms(1) in \<open>unfold well_formed_def V1 L1, blast+\<close>)
  then show ?thesis by (simp add: w1_def)
qed

lemma svg_changed_mounted:
  assumes "mounted w ctx"
  shows "\<exists>w'. svg_changed ctx w = Inr w' \<and> views w' = views w \<and> models w' = models w \<and>
           length (elements w') = length (elements w)"
  using assms unfolding mounted_iff by (auto simp: svg_changed_Inr)

lemma svg_changed_nth:
  assumes "svg_changed ctx w = Inr w'" "views w ctx = Some u" "svg_el u = Some t"
    "i < length (elements w)"
  shows "elements w' ! i =
     (case model_svg ctx w of None \<Rightarrow> elements w ! i
      | Some y \<Rightarrow> if i = t then (elements w ! i)\<lparr>content := [Markup y]\<rparr> else elements w ! i)"
  using svg_changed_InrD[OF assms(1)] assms(2-)
  by (auto simp: jq_html_nth model_svg_def split: option.splits)

subsection \<open>Delivering notifications\<close>

lemma deliver_synced:
  assumes "well_formed w" "\<forall>(e, cb, ctx) \<in> set ls. mounted w ctx"
    "views w this = Some v" "svg_el v = Some s" "models w (model_ref v) = Some md"
    "attributes md ''svg'' = Some x"
  shows "\<exists>w'. deliver ls ev w = Inr w' \<and> views w' = views w \<and> models w' = models w \<and>
           length (elements w') = length (elements w) \<and>
           (content (elements w ! s) = [Markup x] \<or> (\<exists>cb. (ev, cb, this) \<in> set ls)
              \<longrightarrow> content (elements w' ! s) = [Markup x])"
  using assms
proof (induction ls arbitrary: w)
  case Nil
  then show ?case by simp
next
  case (Cons l ls)
  obtain e cb ctx where l: "l = (e, cb, ctx)" by (cases l)
  have rest: "\<forall>(e, cb, ctx) \<in> set ls. mounted w ctx" using Cons.prems(2) by simp
  show ?case
  proof (cases "e = ev")
    case False
    from Cons.IH[OF Cons.prems(1) rest Cons.prems(3-6)] False l
    show ?thesis by auto
  next
    case True
    have m: "mounted w ctx" using Cons.prems(2) l by simp
    from svg_changed_mounted[OF m] obtain w1 where
      w1: "svg_changed ctx w = Inr w1" and V: "views w1 = views w" and M: "models w1 = models w"
      and L: "length (elements w1) = length (elements w)" by blast
    have wf1: "well_formed w1" using Cons.prems(1) wf_cong[OF V M L] by simp
    have rest1: "\<forall>(e, cb, ctx) \<in> set ls. mounted w1 ctx"
      using rest mounted_cong[of w1 w] V M by simp
    from m obtain u t where u: "views w ctx = Some u" "svg_el u = Some t"
      unfolding mounted_iff by blast
    have s: "s < length (elements w)" using Cons.prems(1,3,4) unfolding well_formed_def by blast
    have ms: "model_svg this w = Some x" using Cons.prems(3,5,6) by (simp add: model_svg_def)
    have c1: "content (elements w1 ! s) = [Markup x]"
      if "content (elements w ! s) = [Markup x] \<or> ctx = this"
    proof (cases "ctx = this")
      case True
      with u Cons.prems(3,4) have "t = s" by simp
      with svg_changed_nth[OF w1 u s] ms True show ?thesis by simp
    next
      case False
      with Cons.prems(1,3,4) u have "t \<noteq> s" unfolding well_formed_def by blast
      with svg_changed_nth[OF w1 u s] that False show ?thesis by (simp split: option.splits)
    qed
    from Cons.IH[OF wf1 rest1] Cons.prems(3-6) V M obtain w' where
      w': "deliver ls ev w1 = Inr w'" "views w' = views w1" "models w' = models w1"
        "length (elements w') = length (elements w1)"
        "content (elements w1 ! s) = [Markup x] \<or> (\<exists>cb. (ev, cb, this) \<in> set ls)
              \<longrightarrow> content (elements w' ! s) = [Markup x]"
      by auto
    have "deliver (l # ls) ev w = Inr w'" using l True w1 w'(1) by (cases cb) simp
    moreover have "content (elements w ! s) = [Markup x] \<or> (\<exists>cb. (ev, cb, this) \<in> set (l # ls))
              \<longrightarrow> content (elements w' ! s) = [Markup x]"
      using c1 w'(5) l by auto
    ultimately show ?thesis using w'(2-4) V M L by simp
  qed
qed

lemma deliver_frame:
  assumes "well_formed w" "\<forall>(e, cb, ctx) \<in> set ls. mounted w ctx"
    "views w this = Some v" "svg_el v = Some s"
  shows "\<exists>w'. deliver ls ev w = Inr w' \<and> views w' = views w \<and> models w' = models w \<and>
           length (elements w') = length (elements w) \<and>
           replacements s (calls w') = replacements s (calls w) +
             (if model_svg this w = None then 0 else length (filter (listens this ev) ls)) \<and>
           (filter (listens this ev) ls = [] \<longrightarrow> elements w' ! s = elements w ! s)"
  using assms
proof (induction ls arbitrary: w)
  case Nil
  then show ?case by simp
next
  case (Cons l ls)
  obtain e cb ctx where l: "l = (e, cb, ctx)" by (cases l)
  have rest: "\<forall>(e, cb, ctx) \<in> set ls. mounted w ctx" using Cons.prems(2) by simp
  show ?case
  proof (cases "e = ev")
    case False
    from Cons.IH[OF Cons.prems(1) rest Cons.prems(3-4)] False l
    show ?thesis by auto
  next
    case True
    have m: "mounted w ctx" using Cons.prems(2) l by simp
    from svg_changed_mounted[OF m] obtain w1 where
      w1: "svg_changed ctx w = Inr w1" and V: "views w1 = views w" and M: "models w1 = models w"
      and L: "length (elements w1) = length (elements w)" by blast
    have wf1: "well_formed w1" using Cons.prems(1) wf_cong[OF V M L] by simp
    have rest1: "\<forall>(e, cb, ctx) \<in> set ls. mounted w1 ctx"
      using rest mounted_cong[of w1 w] V M by simp
    from m obtain u t where u: "views w ctx = Some u" "svg_el u = Some t"
      unfolding mounted_iff by blast
    have s: "s < length (elements w)" using Cons.prems(1,3,4) unfolding well_formed_def by blast
    have ms1: "model_svg this w1 = model_svg this w" using model_svg_cong[OF V M] by simp
    have ts: "t = s \<longleftrightarrow> ctx = this"
      using Cons.prems(1,3,4) u unfolding well_formed_def by (cases "ctx = this") auto
    have r1: "replacements s (calls w1) =
        replacements s (calls w) + (if ctx = this \<and> model_svg this w \<noteq> None then 1 else 0)"
      using svg_changed_calls[OF w1 u] ts
      by (cases "model_svg ctx w") (auto simp: replacements_def)
    have e1: "elements w1 ! s = elements w ! s" if "ctx \<noteq> this"
      using svg_changed_nth[OF w1 u s] ts that by (simp split: option.splits)
    from Cons.IH[OF wf1 rest1 _ Cons.prems(4)] Cons.prems(3) V ms1 obtain w' where
      w': "deliver ls ev w1 = Inr w'" "views w' = views w1" "models w' = models w1"
        "length (elements w') = length (elements w1)"
        "replacements s (calls w') = replacements s (calls w1) +
           (if model_svg this w = None then 0 else length (filter (listens this ev) ls))"
        "filter (listens this ev) ls = [] \<longrightarrow> elements w' ! s = elements w1 ! s"
      by auto
    have "deliver (l # ls) ev w = Inr w'" using l True w1 w'(1) by (cases cb) simp
    moreover have "replacements s (calls w') = replacements s (calls w) +
        (if model_svg this w = None then 0 else length (filter (listens this ev) (l # ls)))"
      using w'(5) r1 l True by simp
    moreover have "filter (listens this ev) (l # ls) = [] \<longrightarrow> elements w' ! s = elements w ! s"
      using w'(6) e1 l True by auto
    ultimately show ?thesis using w'(2-4) V M L by simp
  qed
qed

lemma notify_frame:
  assumes "well_formed w" "models w m = Some md" "views w this = Some v" "svg_el v = Some s"
  shows "\<exists>w'. notify m ev w = Inr w' \<and> views w' = views w \<and> models w' = models w \<and>
           length (elements w') = length (elements w) \<and>
           replacements s (calls w') = replacements s (calls w) +
             (if model_svg this w = None then 0 else length (filter (listens this ev) (listeners md))) \<and>
           (filter (listens this ev) (listeners md) = [] \<longrightarrow> elements w' ! s = elements w ! s)"
proof -
  have "\<forall>(e, cb, ctx) \<in> set (listeners md). mounted w ctx"
    using assms(1,2) unfolding well_formed_def by blast
  from deliver_frame[OF assms(1) this assms(3,4), of ev] assms(2)
  show ?thesis by (simp add: notify_def)
qed

lemma deliver_effect:
  assumes "well_formed w" "\<forall>(e, cb, ctx) \<in> set ls. mounted w ctx"
    "views w this = Some v" "svg_el v = Some s"
  shows "\<exists>w'. deliver ls ev w = Inr w' \<and> views w' = views w \<and> models w' = models w \<and>
           length (elements w') = length (elements w) \<and>
           html_calls s (calls w') = html_calls s (calls w) + length (filter (listens this ev) ls) \<and>
           content (elements w' ! s) =
             (if filter (listens this ev) ls = [] \<or> model_svg this w = None
              then content (elements w ! s) else markup_of (model_svg this w))"
  using assms
proof (induction ls arbitrary: w)
  case Nil
  then show ?case by simp
next
  case (Cons l ls)
  obtain e cb ctx where l: "l = (e, cb, ctx)" by (cases l)
  have rest: "\<forall>(e, cb, ctx) \<in> set ls. mounted w ctx" using Cons.prems(2) by simp
  show ?case
  proof (cases "e = ev")
    case False
    from Cons.IH[OF Cons.prems(1) rest Cons.prems(3-4)] False l
    show ?thesis by auto
  next
    case True
    have m: "mounted w ctx" using Cons.prems(2) l by simp
    from svg_changed_mounted[OF m] obtain w1 where
      w1: "svg_changed ctx w = Inr w1" and V: "views w1 = views w" and M: "models w1 = models w"
      and L: "length (elements w1) = length (elements w)" by blast
    have wf1: "well_formed w1" using Cons.prems(1) wf_cong[OF V M L] by simp
    have rest1: "\<forall>(e, cb, ctx) \<in> set ls. mounted w1 ctx"
      using rest mounted_cong[of w1 w] V M by simp
    from m obtain u t where u: "views w ctx = Some u" "svg_el u = Some t"
      unfolding mounted_iff by blast
    have s: "s < length (elements w)" using Cons.prems(1,3,4) unfolding well_formed_def by blast
    have ms1: "model_svg this w1 = model_svg this w" using model_svg_cong[OF V M] by simp
    have ts: "t = s \<longleftrightarrow> ctx = this"
      using Cons.prems(1,3,4) u unfolding well_formed_def by (cases "ctx = this") auto
    have h1: "html_calls s (calls w1) = html_calls s (calls w) + (if ctx = this then 1 else 0)"
      using svg_changed_calls[OF w1 u] ts by (auto simp: html_calls_def)
    have c1: "content (elements w1 ! s) =
        (if ctx = this \<and> model_svg this w \<noteq> None then markup_of (model_svg this w)
         else content (elements w ! s))"
      using svg_changed_nth[OF w1 u s] ts by (auto split: option.splits)
    from Cons.IH[OF wf1 rest1 _ Cons.prems(4)] Cons.prems(3) V ms1 obtain w' where
      w': "deliver ls ev w1 = Inr w'" "views w' = views w1" "models w' = models w1"
        "length (elements w') = length (elements w1)"
        "html_calls s (calls w') = html_calls s (calls w1) + length (filter (listens this ev) ls)"
        "content (elements w' ! s) =
             (if filter (listens this ev) ls = [] \<or> model_svg this w = None
              then content (elements w1 ! s) else markup_of (model_svg this w))"
      by auto
    have "deliver (l # ls) ev w = Inr w'" using l True w1 w'(1) by (cases cb) simp
    moreover have "html_calls s (calls w') =
        html_calls s (calls w) + length (filter (listens this ev) (l # ls))"
      using w'(5) h1 l True by simp
    moreover have "content (elements w' ! s) =
             (if filter (listens this ev) (l # ls) = [] \<or> model_svg this w = None
              then content (elements w ! s) else markup_of (model_svg this w))"
      using w'(6) c1 l True by auto
    ultimately show ?thesis using w'(2-4) V M L by simp
  qed
qed

lemma notify_effect:
  assumes "well_formed w" "models w m = Some md" "views w this = Some v" "svg_el v = Some s"
  shows "\<exists>w'. notify m ev w = Inr w' \<and> views w' = views w \<and> models w' = models w \<and>
           length (elements w') = length (elements w) \<and>
           html_calls s (calls w') =
             html_calls s (calls w) + length (filter (listens this ev) (listeners md)) \<and>
           replacements s (calls w') = replacements s (calls w) +
             (if model_svg this w = None then 0 else length (filter (listens this ev) (listeners md))) \<and>
           content (elements w' ! s) =
             (if filter (listens this ev) (listeners md) = [] \<or> model_svg this w = None
              then content (elements w ! s) else markup_of (model_svg this w))"
proof -
  have ls: "\<forall>(e, cb, ctx) \<in> set (listeners md). mounted w ctx"
    using assms(1,2) unfolding well_formed_def by blast
  from deliver_effect[OF assms(1) ls assms(3,4), of ev] deliver_frame[OF assms(1) ls assms(3,4), of ev]
    assms(2)
  show ?thesis by (auto simp: notify_def)
qed

lemma notifications_effect:
  assumes "well_formed w" "models w m = Some md" "views w this = Some v" "svg_el v = Some s"
    "length (filter (listens this ev) (listeners md)) = 1"
  shows "\<exists>w'. notifications k m ev w = Inr w' \<and> views w' = views w \<and> models w' = models w \<and>
           length (elements w') = length (elements w) \<and>
           html_calls s (calls w') = html_calls s (calls w) + k \<and>
           replacements s (calls w') =
             replacements s (calls w) + (if model_svg this w = None then 0 else k) \<and>
           content (elements w' ! s) =
             (if k = 0 \<or> model_svg this w = None
              then content (elements w ! s) else markup_of (model_svg this w))"
  using assms
proof (induction k arbitrary: w)
  case 0
  then show ?case by simp
next
  case (Suc k)
  have ne: "filter (listens this ev) (listeners md) \<noteq> []" using Suc.prems(5) by auto
  from notify_effect[OF Suc.prems(1-4), of ev] Suc.prems(5) ne obtain w1 where
    w1: "notify m ev w = Inr w1" "views w1 = views w" "models w1 = models w"
      "length (elements w1) = length (elements w)"
      "html_calls s (calls w1) = html_calls s (calls w) + 1"
      "replacements s (calls w1) =
         replacements s (calls w) + (if model_svg this w = None then 0 else 1)"
      "content (elements w1 ! s) =
         (if model_svg this w = None then content (elements w ! s) else markup_of (model_svg this w))"
    by auto
  have wf1: "well_formed w1" using Suc.prems(1) wf_cong[OF w1(2-4)] by simp
  have ms1: "model_svg this w1 = model_svg this w" using model_svg_cong[OF w1(2,3)] by simp
  from Suc.IH[OF wf1 _ _ Suc.prems(4,5)] Suc.prems(2,3) w1(2,3) ms1 obtain w' where
    w': "notifications k m ev w1 = Inr w'" "views w' = views w1" "models w' = models w1"
      "length (elements w') = length (elements w1)"
      "html_calls s (calls w') = html_calls s (calls w1) + k"
      "replacements s (calls w') =
         replacements s (calls w1) + (if model_svg this w = None then 0 else k)"
      "content (elements w' ! s) =
         (if k = 0 \<or> model_svg this w = None
          then content (elements w1 ! s) else markup_of (model_svg this w))"
    by auto
  have "notifications (Suc k) m ev w = Inr w'" using w1(1) w'(1) by simp
  moreover have "content (elements w' ! s) =
      (if model_svg this w = None then content (elements w ! s) else markup_of (model_svg this w))"
    using w'(7) w1(7) by auto
  ultimately show ?case using w1 w' by auto
qed

lemma model_set_synced:
  assumes "well_formed w" "views w this = Some v" "subscribed w this" "synced w this"
  shows "\<exists>w'. model_set (model_ref v) ''svg'' x w = Inr w' \<and> well_formed w' \<and> views w' = views w \<and>
           subscribed w' this \<and> synced w' this \<and> model_svg this w' = Some x"
proof -
  from assms(2,3) obtain md where md: "models w (model_ref v) = Some md"
    and sub: "(''change:svg'', SvgChanged, this) \<in> set (listeners md)"
    unfolding subscribed_iff by auto
  from assms(1) md sub have "mounted w this" unfolding well_formed_def by blast
  with assms(2) obtain s where s: "svg_el v = Some s" unfolding mounted_iff by auto
  have sl: "s < length (elements w)" using assms(1,2) s unfolding well_formed_def by blast
  define md1 where "md1 = md\<lparr>attributes := (attributes md)(''svg'' \<mapsto> x)\<rparr>"
  define w1 where "w1 = w\<lparr>models := (models w)(model_ref v \<mapsto> md1)\<rparr>"
  have V1: "views w1 = views w" and L1: "length (elements w1) = length (elements w)"
    and E1: "elements w1 = elements w"
    and M1: "models w1 = (models w)(model_ref v \<mapsto> md1)" by (simp_all add: w1_def)
  have dom1: "dom (models w1) = dom (models w)" using md by (auto simp: M1)
  have wf1: "well_formed w1"
    unfolding well_formed_def
  proof (intro conjI allI impI)
    fix m md' e cb ctx
    assume "models w1 m = Some md'" "(e, cb, ctx) \<in> set (listeners md')"
    then have "mounted w ctx"
      using assms(1) md unfolding well_formed_def M1 md1_def by (auto split: if_splits)
    then show "mounted w1 ctx" using mounted_cong[OF V1 dom1] by simp
  qed (use assms(1) in \<open>unfold well_formed_def V1 L1, blast+\<close>)
  have md1: "models w1 (model_ref v) = Some md1" "attributes md1 ''svg'' = Some x"
    "listeners md1 = listeners md"
    by (simp_all add: M1 md1_def)
  have ms1: "model_svg this w1 = Some x" using assms(2) md1 V1 by (simp add: model_svg_def)
  have sub1: "subscribed w1 this" using assms(2) sub md1 V1 unfolding subscribed_iff by simp
  show ?thesis
  proof (cases "attributes md ''svg'' = Some x")
    case True
    then have "model_set (model_ref v) ''svg'' x w = Inr w1"
      using md by (simp add: model_set_def w1_def md1_def)
    moreover have "synced w1 this"
      using assms(4) True assms(2) md s sl md1 V1 E1
      by (simp add: synced_def svg_content_def model_svg_def)
    ultimately show ?thesis using wf1 V1 sub1 ms1 by simp
  next
    case False
    have ls: "\<forall>(e, cb, ctx) \<in> set (listeners md1). mounted w1 ctx"
      using wf1 md1(1) unfolding well_formed_def by blast
    from deliver_synced[OF wf1 ls _ s md1(1,2), of this "''change:svg''"] assms(2) V1 sub md1(3)
    obtain w' where w': "deliver (listeners md1) ''change:svg'' w1 = Inr w'"
      "views w' = views w1" "models w' = models w1" "length (elements w') = length (elements w1)"
      "content (elements w' ! s) = [Markup x]"
      by auto
    have "model_set (model_ref v) ''svg'' x w = Inr w'"
      using md False w'(1) md1(1) by (simp add: model_set_def notify_def w1_def md1_def)
    moreover have "well_formed w'" using wf1 wf_cong[OF w'(2-4)] by simp
    moreover have "subscribed w' this" using sub1 w'(2,3) unfolding subscribed_iff by simp
    moreover have "model_svg this w' = Some x" using ms1 model_svg_cong[OF w'(2,3)] by simp
    moreover have "synced w' this"
      using w'(2-5) assms(2) s sl V1 L1 \<open>model_svg this w' = Some x\<close>
      by (simp add: synced_def svg_content_def)
    ultimately show ?thesis using w'(2) V1 by simp
  qed
qed

lemma model_set_frame:
  assumes "well_formed w" "models w m = Some md" "views w this = Some v" "svg_el v = Some s"
    "filter (listens this (''change:'' @ n)) (listeners md) = []"
  shows "\<exists>w'. model_set m n x w = Inr w' \<and> views w' = views w \<and>
           length (elements w') = length (elements w) \<and> elements w' ! s = elements w ! s"
proof -
  define md1 where "md1 = md\<lparr>attributes := (attributes md)(n \<mapsto> x)\<rparr>"
  define w1 where "w1 = w\<lparr>models := (models w)(m \<mapsto> md1)\<rparr>"
  have wf1: "well_formed w1" using wf_set_attribute[OF assms(1,2)] by (simp add: w1_def md1_def)
  have m1: "models w1 m = Some md1" "listeners md1 = listeners md" "views w1 = views w"
    "elements w1 = elements w"
    by (simp_all add: w1_def md1_def)
  show ?thesis
  proof (cases "attributes md n = Some x")
    case True
    then have "model_set m n x w = Inr w1"
      using assms(2) by (simp add: model_set_def w1_def md1_def)
    then show ?thesis using m1 by simp
  next
    case False
    from notify_frame[OF wf1 m1(1), of this v s "''change:'' @ n"] assms(3-5) m1
    obtain w' where "notify m (''change:'' @ n) w1 = Inr w'" "views w' = views w1"
      "length (elements w') = length (elements w1)" "elements w' ! s = elements w1 ! s"
      by auto
    moreover have "model_set m n x w = notify m (''change:'' @ n) w1"
      using assms(2) False by (simp add: model_set_def w1_def md1_def)
    ultimately show ?thesis using m1 by simp
  qed
qed

lemma updates_synced:
  assumes "well_formed w" "views w this = Some v" "subscribed w this" "synced w this"
  shows "\<exists>w'. updates (model_ref v) ''svg'' xs w = Inr w' \<and> well_formed w' \<and> views w' = views w \<and>
           subscribed w' this \<and> synced w' this \<and>
           model_svg this w' = (if xs = [] then model_svg this w else Some (last xs))"
  using assms
proof (induction xs arbitrary: w)
  case Nil
  then show ?case by simp
next
  case (Cons x xs)
  from model_set_synced[OF Cons.prems, of x] obtain w1 where
    w1: "model_set (model_ref v) ''svg'' x w = Inr w1" "well_formed w1" "views w1 = views w"
      "subscribed w1 this" "synced w1 this" "model_svg this w1 = Some x" by blast
  from Cons.IH[OF w1(2) _ w1(4,5)] w1(3) Cons.prems(2) obtain w' where
    "updates (model_ref v) ''svg'' xs w1 = Inr w'" "well_formed w'" "views w' = views w1"
           "subscribed w' this" "synced w' this"
           "model_svg this w' = (if xs = [] then model_svg this w1 else Some (last xs))"
    by auto
  then show ?case using w1 by auto
qed

lemma render_synced:
  assumes "well_formed w" "render this w = Inr w'"
  shows "subscribed w' this \<and> synced w' this \<and> model_svg this w' = model_svg this w"
proof -
  from render_InrD[OF assms(2)] obtain v md where
    v: "views w this = Some v" and md: "models w (model_ref v) = Some md" by blast
  have h: "el v < length (elements w)" using assms(1) v unfolding well_formed_def by blast
  from render_Inr[OF v md] assms(2) h v md show ?thesis
    by (auto simp: subscribed_iff synced_def svg_content_def model_svg_def nth_upd_el nth_append
        split: option.splits)
qed

subsection \<open>The concrete notebooks\<close>

lemma wf_world0: "well_formed world0"
  by (simp add: well_formed_def world0_def view0_def model0_def mounted_iff)

lemma wf_world2: "well_formed world2"
  by (simp add: well_formed_def world2_def view0_def view1_def model0_def model1_def mounted_iff)

lemma render_world0: "render 0 world0 = Inr world1"
  by (simp add: render_def jq_create_def jq_append_def svg_changed_def model_get_def jq_html_def
      jq_attr_def model_on_def upd_el_def world0_def world1_def host0_def view0_def model0_def)

lemma mounted_world1: "mounted world1 0"
  by (simp add: mounted_iff world1_def)


section \<open>The claims\<close>

text \<open>
  C1: for every mounted view and every sequence of updates of the \<^verbatim>\<open>svg\<close> attribute of
  its model, after the notification of each update is delivered (and after the initial sync
  of the mount, the case of the empty sequence) the Container holds the value the model has
  now, the last one set: never a stale or intermediate one.
\<close>

theorem container_follows_model:
  assumes "well_formed w" "views w this = Some v" "models w (model_ref v) = Some md"
  shows "\<exists>w1 w2. render this w = Inr w1 \<and> updates (model_ref v) ''svg'' xs w1 = Inr w2 \<and>
           model_svg this w2 = (if xs = [] then attributes md ''svg'' else Some (last xs)) \<and>
           svg_content this w2 = Some (markup_of (model_svg this w2))"
proof -
  from render_Inr[OF assms(2,3)] obtain w1 where
    w1: "render this w = Inr w1" "views w1 = (views w)(this \<mapsto> v\<lparr>svg_el := Some (length (elements w))\<rparr>)"
    by blast
  have wf1: "well_formed w1" using wf_render[OF assms(1) w1(1)] .
  from render_synced[OF assms(1) w1(1)] have
    s1: "subscribed w1 this" "synced w1 this" "model_svg this w1 = model_svg this w" by simp_all
  have v1: "views w1 this = Some (v\<lparr>svg_el := Some (length (elements w))\<rparr>)"
    using w1(2) by simp
  from updates_synced[OF wf1 v1 s1(1,2), of xs] obtain w2 where
    w2: "updates (model_ref v) ''svg'' xs w1 = Inr w2" "synced w2 this"
      "model_svg this w2 = (if xs = [] then model_svg this w1 else Some (last xs))"
    by auto
  have "model_svg this w = attributes md ''svg''"
    using assms(2,3) by (simp add: model_svg_def)
  with w1(1) w2 s1(3) show ?thesis by (auto simp: synced_def)
qed

theorem container_follows_model_witness:
  "well_formed world0 \<and> views world0 0 = Some view0 \<and> models world0 (model_ref view0) = Some model0 \<and>
   (\<exists>w1 w2. render 0 world0 = Inr w1 \<and>
      updates 0 ''svg'' [''<rect/>'', ''<line/>'', ''''] w1 = Inr w2 \<and>
      model_svg 0 w2 = Some '''' \<and> svg_content 0 w2 = Some [Markup ''''])"
proof -
  have v: "views world0 0 = Some view0" by (simp add: world0_def)
  have m: "models world0 (model_ref view0) = Some model0" by (simp add: world0_def view0_def)
  from container_follows_model[OF wf_world0 v m, of "[''<rect/>'', ''<line/>'', '''']"]
  obtain w1 w2 where "render 0 world0 = Inr w1"
    "updates (model_ref view0) ''svg'' [''<rect/>'', ''<line/>'', ''''] w1 = Inr w2"
    "model_svg 0 w2 = Some ''''" "svg_content 0 w2 = Some (markup_of (model_svg 0 w2))"
    by auto
  then have "\<exists>w1 w2. render 0 world0 = Inr w1 \<and>
      updates 0 ''svg'' [''<rect/>'', ''<line/>'', ''''] w1 = Inr w2 \<and>
      model_svg 0 w2 = Some '''' \<and> svg_content 0 w2 = Some [Markup '''']"
    by (auto simp: view0_def)
  with wf_world0 v m show ?thesis by blast
qed

text \<open>
  C2: when the \<^verbatim>\<open>svg\<close> attribute of the model holds the string \<open>x\<close> at mount time,
  \<^verbatim>\<open>render\<close> completes and the content of the Container is exactly \<open>x\<close>; the witness
  is the markup \<^verbatim>\<open><circle r='5'/>\<close> of the spec.
\<close>

theorem initial_render:
  assumes "views w this = Some v" "models w (model_ref v) = Some md" "attributes md ''svg'' = Some x"
  shows "\<exists>w'. render this w = Inr w' \<and> svg_content this w' = Some [Markup x]"
proof -
  from render_Inr[OF assms(1,2)] assms(3) show ?thesis
    by (auto simp: svg_content_def nth_upd_el)
qed

theorem initial_render_witness:
  "views world0 0 = Some view0 \<and> models world0 (model_ref view0) = Some model0 \<and>
   attributes model0 ''svg'' = Some ''<circle r='5'/>'' \<and>
   (\<exists>w'. render 0 world0 = Inr w' \<and> svg_content 0 w' = Some [Markup ''<circle r='5'/>''])"
proof -
  have v: "views world0 0 = Some view0" by (simp add: world0_def)
  have m: "models world0 (model_ref view0) = Some model0" by (simp add: world0_def view0_def)
  have a: "attributes model0 ''svg'' = Some ''<circle r='5'/>''" by (simp add: model0_def)
  from initial_render[OF v m a] v m a show ?thesis by blast
qed

text \<open>
  C3: the subscription is registered only after the initial sync of the mount has completed.
  The sync of \<^verbatim>\<open>render\<close> starts and ends in states whose models, and so whose
  subscriptions, are those before the mount; the registration is made from the state the sync
  ended in; and among the calls of \<^verbatim>\<open>render\<close> the injection of the markup comes before
  the registration, never after it. So no notification can trigger a sync of this view before
  the initial one.
\<close>

theorem subscription_after_initial_sync:
  assumes "render this w = Inr w'" "views w this = Some v"
  shows "\<exists>w3 w4.
           calls w3 = calls w @ [JCreate (length (elements w)) ''svg'', JAppend (el v) (length (elements w))] \<and>
           models w3 = models w \<and>
           svg_changed this w3 = Inr w4 \<and>
           models w4 = models w \<and>
           model_on (model_ref v) ''change:svg'' SvgChanged this
             (jq_attr (el v) ''overflow'' ''hidden'' w4) = Inr w' \<and>
           precedes (JHtml (length (elements w)) (model_svg this w))
             (ModelOn (model_ref v) ''change:svg'' SvgChanged this)
             (drop (length (calls w)) (calls w')) \<and>
           \<not> precedes (ModelOn (model_ref v) ''change:svg'' SvgChanged this)
             (JHtml (length (elements w)) (model_svg this w))
             (drop (length (calls w)) (calls w'))"
proof -
  define s where "s = length (elements w)"
  define w3 where "w3 = jq_append (el v) s
     ((snd (jq_create ''svg'' w))\<lparr>views := (views (snd (jq_create ''svg'' w)))(this \<mapsto> v\<lparr>svg_el := Some s\<rparr>)\<rparr>)"
  from assms obtain w4 where
    w4: "svg_changed this w3 = Inr w4"
      "model_on (model_ref v) ''change:svg'' SvgChanged this
         (jq_attr (el v) ''overflow'' ''hidden'' w4) = Inr w'"
    by (auto simp: render_def w3_def s_def jq_create_def Let_def split: sum.splits)
  have c3: "calls w3 = calls w @ [JCreate s ''svg'', JAppend (el v) s]"
    and m3: "models w3 = models w"
    by (simp_all add: w3_def jq_append_def jq_create_def s_def)
  from svg_changed_InrD[OF w4(1)] have m4: "models w4 = models w3" by auto
  from render_InrD[OF assms(1)] assms(2) obtain md where
    md: "models w (model_ref v) = Some md" by auto
  have c: "drop (length (calls w)) (calls w') =
           [JCreate s ''svg'', JAppend (el v) s, ModelGet (model_ref v) ''svg'',
            JHtml s (model_svg this w), JAttr (el v) ''overflow'' ''hidden'',
            ModelOn (model_ref v) ''change:svg'' SvgChanged this]"
    using render_Inr[OF assms(2) md] assms md by (auto simp: model_svg_def s_def)
  show ?thesis
    using c3 m3 w4 m4 unfolding c s_def[symmetric] by (intro exI[of _ w3] exI[of _ w4]) simp
qed

theorem subscription_after_initial_sync_witness:
  "render 0 world0 = Inr world1 \<and> views world0 0 = Some view0 \<and>
   precedes (JHtml 1 (Some ''<circle r='5'/>'')) (ModelOn 0 ''change:svg'' SvgChanged 0)
     (drop (length (calls world0)) (calls world1)) \<and>
   \<not> precedes (ModelOn 0 ''change:svg'' SvgChanged 0) (JHtml 1 (Some ''<circle r='5'/>''))
     (drop (length (calls world0)) (calls world1))"
proof -
  have v: "views world0 0 = Some view0" by (simp add: world0_def)
  from subscription_after_initial_sync[OF render_world0 v] render_world0 v show ?thesis
    by (auto simp: world0_def view0_def model0_def host0_def model_svg_def)
qed

text \<open>
  C4, as amended: mounting a view registers exactly one listener, for \<^verbatim>\<open>change:svg\<close>, on
  the view's model and on no other; on a view that had none it is the only one. The Container
  exists and holds the markup of the model. Whatever content \<open>c\<close> the Container has come to
  hold, the delivery of \<open>k\<close> notifications of \<^verbatim>\<open>change:svg\<close> syncs it exactly \<open>k\<close> times
  (\<open>k\<close> calls of \<^verbatim>\<open>.html\<close> on it). When the model holds a string, each of them replaces
  the content (\<open>k\<close> replacements) and the Container ends holding the markup of the model;
  when the model has no \<^verbatim>\<open>svg\<close> attribute none of them writes anything.
\<close>

theorem single_subscription:
  assumes "well_formed w" "views w this = Some v" "models w (model_ref v) = Some md"
    "filter (listens this ''change:svg'') (listeners md) = []"
  shows "\<exists>w1 w2. render this w = Inr w1 \<and>
           models w1 = (models w)(model_ref v \<mapsto>
              md\<lparr>listeners := listeners md @ [(''change:svg'', SvgChanged, this)]\<rparr>) \<and>
           length (filter (listens this ''change:svg'')
              (listeners md @ [(''change:svg'', SvgChanged, this)])) = 1 \<and>
           views w1 this = Some (v\<lparr>svg_el := Some (length (elements w))\<rparr>) \<and>
           svg_content this w1 = Some (markup_of (attributes md ''svg'')) \<and>
           notifications k (model_ref v) ''change:svg''
             (set_content (length (elements w)) c w1) = Inr w2 \<and>
           html_calls (length (elements w)) (calls w2) =
             html_calls (length (elements w)) (calls w1) + k \<and>
           replacements (length (elements w)) (calls w2) =
             replacements (length (elements w)) (calls w1) +
               (if attributes md ''svg'' = None then 0 else k) \<and>
           svg_content this w2 =
             Some (if k = 0 \<or> attributes md ''svg'' = None then c
                   else markup_of (attributes md ''svg''))"
proof -
  define s where "s = length (elements w)"
  define md1 where "md1 = md\<lparr>listeners := listeners md @ [(''change:svg'', SvgChanged, this)]\<rparr>"
  from render_Inr[OF assms(2,3)] obtain w1 where
    w1: "render this w = Inr w1" "models w1 = (models w)(model_ref v \<mapsto> md1)"
      "views w1 = (views w)(this \<mapsto> v\<lparr>svg_el := Some s\<rparr>)"
    unfolding md1_def s_def by blast
  have wf1: "well_formed w1" using wf_render[OF assms(1) w1(1)] .
  have v1: "views w1 this = Some (v\<lparr>svg_el := Some s\<rparr>)" using w1(3) by simp
  have m1: "models w1 (model_ref v) = Some md1" using w1(2) by simp
  have ms: "model_svg this w = attributes md ''svg''"
    using assms(2,3) by (simp add: model_svg_def)
  from render_synced[OF assms(1) w1(1)] ms have
    sy: "svg_content this w1 = Some (markup_of (attributes md ''svg''))"
    and ms1: "model_svg this w1 = attributes md ''svg''"
    by (simp_all add: synced_def)
  have sl: "s < length (elements w1)" using wf1 v1 unfolding well_formed_def by fastforce
  define w1c where "w1c = set_content s c w1"
  have wfc: "well_formed w1c" using wf1 wf_cong[of w1c w1] by (simp add: w1c_def)
  have vc: "views w1c this = Some (v\<lparr>svg_el := Some s\<rparr>)" and mc: "models w1c (model_ref v) = Some md1"
    using v1 m1 by (simp_all add: w1c_def)
  have msc: "model_svg this w1c = attributes md ''svg''"
    using ms1 model_svg_cong[of w1c w1 this] by (simp add: w1c_def)
  have one: "length (filter (listens this ''change:svg'') (listeners md1)) = 1"
    using assms(4) by (simp add: md1_def)
  from notifications_effect[OF wfc mc vc _ one, of s k] msc obtain w2 where
    w2: "notifications k (model_ref v) ''change:svg'' w1c = Inr w2" "views w2 = views w1c"
      "length (elements w2) = length (elements w1c)"
      "html_calls s (calls w2) = html_calls s (calls w1c) + k"
      "replacements s (calls w2) =
         replacements s (calls w1c) + (if attributes md ''svg'' = None then 0 else k)"
      "content (elements w2 ! s) =
         (if k = 0 \<or> attributes md ''svg'' = None
          then content (elements w1c ! s) else markup_of (attributes md ''svg''))"
    by auto
  have "svg_content this w2 =
      Some (if k = 0 \<or> attributes md ''svg'' = None then c else markup_of (attributes md ''svg''))"
    using w2(2,3,6) vc sl set_content_nth[OF sl, of c]
    by (simp add: svg_content_def w1c_def)
  with w1(1,2) v1 sy w2(1,4,5) one show ?thesis
    unfolding md1_def s_def w1c_def by auto
qed

theorem single_subscription_witness:
  "well_formed world0 \<and> views world0 0 = Some view0 \<and>
   models world0 (model_ref view0) = Some model0 \<and>
   filter (listens 0 ''change:svg'') (listeners model0) = [] \<and>
   (\<exists>w1 w2. render 0 world0 = Inr w1 \<and>
      map_option listeners (models w1 0) = Some [(''change:svg'', SvgChanged, 0)] \<and>
      svg_content 0 w1 = Some [Markup ''<circle r='5'/>''] \<and>
      notifications 3 0 ''change:svg'' (set_content 1 [Markup ''<old/>''] w1) = Inr w2 \<and>
      html_calls 1 (calls w2) = html_calls 1 (calls w1) + 3 \<and>
      replacements 1 (calls w2) = replacements 1 (calls w1) + 3 \<and>
      svg_content 0 w2 = Some [Markup ''<circle r='5'/>''])"
proof -
  have v: "views world0 0 = Some view0" by (simp add: world0_def)
  have m: "models world0 (model_ref view0) = Some model0" by (simp add: world0_def view0_def)
  have f: "filter (listens 0 ''change:svg'') (listeners model0) = []" by (simp add: model0_def)
  from single_subscription[OF wf_world0 v m f, of 3 "[Markup ''<old/>'']"]
  have "\<exists>w1 w2. render 0 world0 = Inr w1 \<and>
      map_option listeners (models w1 0) = Some [(''change:svg'', SvgChanged, 0)] \<and>
      svg_content 0 w1 = Some [Markup ''<circle r='5'/>''] \<and>
      notifications 3 0 ''change:svg'' (set_content 1 [Markup ''<old/>''] w1) = Inr w2 \<and>
      html_calls 1 (calls w2) = html_calls 1 (calls w1) + 3 \<and>
      replacements 1 (calls w2) = replacements 1 (calls w1) + 3 \<and>
      svg_content 0 w2 = Some [Markup ''<circle r='5'/>'']"
    by (auto simp: view0_def model0_def world0_def)
  with wf_world0 v m f show ?thesis by blast
qed

text \<open>
  C4 as stated has \<open>N\<close> replacements of the content for \<open>N\<close> notifications, for every
  model. On a model with no \<^verbatim>\<open>svg\<close> attribute three notifications make three calls of
  \<^verbatim>\<open>.html\<close> and no replacement: the Container holds nothing, as before.
\<close>

theorem single_subscription_counterexample:
  "(case render 0 world3 of
      Inl e \<Rightarrow> None
    | Inr w1 \<Rightarrow>
        (case notifications 3 0 ''change:svg'' w1 of
           Inl e \<Rightarrow> None
         | Inr w2 \<Rightarrow>
             Some (html_calls 1 (calls w2) - html_calls 1 (calls w1),
                   replacements 1 (calls w1), replacements 1 (calls w2), svg_content 0 w2)))
   = Some (3, 0, 0, Some [])"
  by (simp add: render_def jq_create_def jq_append_def svg_changed_def model_get_def jq_html_def
      jq_attr_def model_on_def upd_el_def notify_def world3_def host0_def view0_def model_none_def
      html_calls_def replacements_def svg_content_def eval_nat_numeral)




text \<open>
  What \<^verbatim>\<open>render\<close> does to the host element, for every value of the \<^verbatim>\<open>svg\<close>
  attribute, also none: \<^verbatim>\<open>.attr\<close> assigns the markup attribute \<^verbatim>\<open>overflow\<close>, and the
  style of the host element is what it was.
\<close>

lemma render_host_overflow:
  assumes "views w this = Some v" "models w (model_ref v) = Some md" "el v < length (elements w)"
  shows "\<exists>w'. render this w = Inr w' \<and>
           attrs (elements w' ! el v) ''overflow'' = Some ''hidden'' \<and>
           style (elements w' ! el v) = style (elements w ! el v)"
proof -
  from render_Inr[OF assms(1,2)] assms(3) show ?thesis
    by (auto simp: nth_upd_el nth_append split: option.splits)
qed

text \<open>
  C6: after the mount the overflow style of the host element is to clip the content. The code
  does not do it: \<^verbatim>\<open>render\<close> calls \<^verbatim>\<open>.attr({overflow: 'hidden'})\<close>, which writes a markup
  attribute of the host element and no style. After the mount of the notebook of P1 the style
  of the host element has no \<^verbatim>\<open>overflow\<close> declaration; the attribute is there.
\<close>

theorem overflow_style_not_set:
  "render 0 world0 = Inr world1 \<and> el view0 = 0 \<and>
   style (elements world1 ! 0) ''overflow'' = None \<and>
   attrs (elements world1 ! 0) ''overflow'' = Some ''hidden''"
  using render_world0 by (simp add: world1_def view0_def)

text \<open>
  C7: on a mounted view, \<^verbatim>\<open>svg_changed\<close> called twice in succession, the model not
  changed in between, succeeds both times and the second call leaves the document, and so the
  content of the Container, as the first call left it.
\<close>

theorem sync_idempotent:
  assumes "mounted w this"
  shows "\<exists>w1 w2. svg_changed this w = Inr w1 \<and> svg_changed this w1 = Inr w2 \<and>
           elements w2 = elements w1 \<and> models w2 = models w1 \<and> views w2 = views w1 \<and>
           svg_content this w2 = svg_content this w1"
proof -
  from assms obtain v s md where
    v: "views w this = Some v" "svg_el v = Some s" "models w (model_ref v) = Some md"
    unfolding mounted_iff by auto
  define w1 where
    "w1 = jq_html s (attributes md ''svg'') (w\<lparr>calls := calls w @ [ModelGet (model_ref v) ''svg'']\<rparr>)"
  have 1: "svg_changed this w = Inr w1" using svg_changed_Inr[OF v] by (simp add: w1_def)
  have v1: "views w1 this = Some v" "models w1 (model_ref v) = Some md"
    using v by (simp_all add: w1_def)
  define w2 where
    "w2 = jq_html s (attributes md ''svg'') (w1\<lparr>calls := calls w1 @ [ModelGet (model_ref v) ''svg'']\<rparr>)"
  have 2: "svg_changed this w1 = Inr w2" using svg_changed_Inr[OF v1(1) v(2) v1(2)] by (simp add: w2_def)
  have e: "elements w2 = elements w1"
    by (cases "attributes md ''svg''")
      (simp_all add: w2_def w1_def jq_html_def upd_el_def)
  have "views w2 = views w1" "models w2 = models w1" by (simp_all add: w2_def)
  with 1 2 e show ?thesis by (auto simp: svg_content_def split: option.splits)
qed

theorem sync_idempotent_witness:
  "mounted world1 0 \<and>
   (\<exists>w1 w2. svg_changed 0 world1 = Inr w1 \<and> svg_changed 0 w1 = Inr w2 \<and>
      elements w2 = elements w1 \<and> svg_content 0 w2 = svg_content 0 w1)"
  using sync_idempotent[OF mounted_world1] mounted_world1 by blast




text \<open>
  C9: two views, each with its own model, neither subscribed to the model of the other.
  After both are mounted, an update of the \<^verbatim>\<open>svg\<close> attribute of one model, with its
  notification delivered, leaves the content of the Container of the other view as it was.
\<close>

theorem isolation:
  assumes "well_formed w" "a \<noteq> b" "views w a = Some va" "views w b = Some vb"
    "model_ref va \<noteq> model_ref vb"
    "models w (model_ref va) = Some ma" "models w (model_ref vb) = Some mb"
    "filter (listens b ''change:svg'') (listeners ma) = []"
    "filter (listens a ''change:svg'') (listeners mb) = []"
  shows "\<exists>w1 w2 w3 w4. render a w = Inr w1 \<and> render b w1 = Inr w2 \<and>
           model_set (model_ref va) ''svg'' x w2 = Inr w3 \<and> svg_content b w3 = svg_content b w2 \<and>
           model_set (model_ref vb) ''svg'' y w2 = Inr w4 \<and> svg_content a w4 = svg_content a w2"
proof -
  define ma1 where "ma1 = ma\<lparr>listeners := listeners ma @ [(''change:svg'', SvgChanged, a)]\<rparr>"
  define mb1 where "mb1 = mb\<lparr>listeners := listeners mb @ [(''change:svg'', SvgChanged, b)]\<rparr>"
  define va1 where "va1 = va\<lparr>svg_el := Some (length (elements w))\<rparr>"
  from render_Inr[OF assms(3,6)] obtain w1 where
    w1: "render a w = Inr w1" "models w1 = (models w)(model_ref va \<mapsto> ma1)"
      "views w1 = (views w)(a \<mapsto> va1)"
    unfolding ma1_def va1_def by blast
  have wf1: "well_formed w1" using wf_render[OF assms(1) w1(1)] .
  have b1: "views w1 b = Some vb" "models w1 (model_ref vb) = Some mb"
    using assms(2,4,5,7) w1(2,3) by simp_all
  define vb1 where "vb1 = vb\<lparr>svg_el := Some (length (elements w1))\<rparr>"
  from render_Inr[OF b1] obtain w2 where
    w2: "render b w1 = Inr w2" "models w2 = (models w1)(model_ref vb \<mapsto> mb1)"
      "views w2 = (views w1)(b \<mapsto> vb1)"
    unfolding mb1_def vb1_def by blast
  have wf2: "well_formed w2" using wf_render[OF wf1 w2(1)] .
  have va2: "views w2 a = Some va1" and vb2: "views w2 b = Some vb1"
    using assms(2) w1(3) w2(3) by simp_all
  have ma2: "models w2 (model_ref va) = Some ma1" and mb2: "models w2 (model_ref vb) = Some mb1"
    using assms(5) w1(2) w2(2) by simp_all
  have fa: "filter (listens b (''change:'' @ ''svg'')) (listeners ma1) = []"
    using assms(2,8) by (simp add: ma1_def)
  have fb: "filter (listens a (''change:'' @ ''svg'')) (listeners mb1) = []"
    using assms(2,9) by (simp add: mb1_def)
  have sa: "svg_el va1 = Some (length (elements w))" and sb: "svg_el vb1 = Some (length (elements w1))"
    by (simp_all add: va1_def vb1_def)
  from model_set_frame[OF wf2 ma2 vb2 sb fa, of x] obtain w3 where
    w3: "model_set (model_ref va) ''svg'' x w2 = Inr w3" "views w3 = views w2"
      "length (elements w3) = length (elements w2)"
      "elements w3 ! length (elements w1) = elements w2 ! length (elements w1)"
    by blast
  from model_set_frame[OF wf2 mb2 va2 sa fb, of y] obtain w4 where
    w4: "model_set (model_ref vb) ''svg'' y w2 = Inr w4" "views w4 = views w2"
      "length (elements w4) = length (elements w2)"
      "elements w4 ! length (elements w) = elements w2 ! length (elements w)"
    by blast
  have "svg_content b w3 = svg_content b w2"
    using svg_content_cong[OF w3(2,3) vb2 sb w3(4)] .
  moreover have "svg_content a w4 = svg_content a w2"
    using svg_content_cong[OF w4(2,3) va2 sa w4(4)] .
  ultimately show ?thesis using w1(1) w2(1) w3(1) w4(1) by blast
qed

theorem isolation_witness:
  "well_formed world2 \<and> (0::nat) \<noteq> 1 \<and> views world2 0 = Some view0 \<and> views world2 1 = Some view1 \<and>
   model_ref view0 \<noteq> model_ref view1 \<and>
   models world2 (model_ref view0) = Some model0 \<and> models world2 (model_ref view1) = Some model1 \<and>
   filter (listens 1 ''change:svg'') (listeners model0) = [] \<and>
   filter (listens 0 ''change:svg'') (listeners model1) = [] \<and>
   (\<exists>w1 w2 w3 w4. render 0 world2 = Inr w1 \<and> render 1 w1 = Inr w2 \<and>
      model_set 0 ''svg'' ''<line/>'' w2 = Inr w3 \<and> svg_content 1 w3 = svg_content 1 w2 \<and>
      model_set 1 ''svg'' '''' w2 = Inr w4 \<and> svg_content 0 w4 = svg_content 0 w2)"
proof -
  have n: "(0::nat) \<noteq> 1" by simp
  have v: "views world2 0 = Some view0" "views world2 1 = Some view1"
    by (simp_all add: world2_def)
  have d: "model_ref view0 \<noteq> model_ref view1" by (simp add: view0_def view1_def)
  have m: "models world2 (model_ref view0) = Some model0"
    "models world2 (model_ref view1) = Some model1"
    by (simp_all add: world2_def view0_def view1_def)
  have f: "filter (listens 1 ''change:svg'') (listeners model0) = []"
    "filter (listens 0 ''change:svg'') (listeners model1) = []"
    by (simp_all add: model0_def model1_def)
  from isolation[OF wf_world2 n v d m f, of "''<line/>''" "''''"]
  have "\<exists>w1 w2 w3 w4. render 0 world2 = Inr w1 \<and> render 1 w1 = Inr w2 \<and>
      model_set 0 ''svg'' ''<line/>'' w2 = Inr w3 \<and> svg_content 1 w3 = svg_content 1 w2 \<and>
      model_set 1 ''svg'' '''' w2 = Inr w4 \<and> svg_content 0 w4 = svg_content 0 w2"
    by (simp add: view0_def view1_def)
  with wf_world2 n v d m f show ?thesis by blast
qed

text \<open>
  C10: once \<^verbatim>\<open>render\<close> has completed, \<^verbatim>\<open>svg_changed\<close> succeeds; on a view whose
  \<^verbatim>\<open>this.$svg\<close> was never assigned it fails, on the undefined Container; and
  \<^verbatim>\<open>svg_changed\<close> itself never assigns \<^verbatim>\<open>this.$svg\<close>.
\<close>

theorem sync_needs_mount:
  "(render this w = Inr w' \<longrightarrow> (\<exists>w''. svg_changed this w' = Inr w'')) \<and>
   (views w this = Some v \<and> svg_el v = None \<longrightarrow> svg_changed this w = Inl SvgUndefined) \<and>
   (svg_changed this w = Inr w' \<longrightarrow> views w' = views w)"
proof (intro conjI impI)
  assume r: "render this w = Inr w'"
  from render_InrD[OF r] obtain u md where
    u: "views w this = Some u" "models w (model_ref u) = Some md" by blast
  from render_Inr[OF u] r have "mounted w' this"
    by (auto simp: mounted_iff)
  from svg_changed_mounted[OF this] show "\<exists>w''. svg_changed this w' = Inr w''" by blast
next
  assume "views w this = Some v \<and> svg_el v = None"
  then show "svg_changed this w = Inl SvgUndefined" by (simp add: svg_changed_def)
next
  assume "svg_changed this w = Inr w'"
  from svg_changed_InrD[OF this] show "views w' = views w" by auto
qed

theorem sync_needs_mount_witness:
  "render 0 world0 = Inr world1 \<and> (\<exists>w''. svg_changed 0 world1 = Inr w'') \<and>
   views world0 0 = Some view0 \<and> svg_el view0 = None \<and> svg_changed 0 world0 = Inl SvgUndefined"
proof -
  have v: "views world0 0 = Some view0 \<and> svg_el view0 = None"
    by (simp add: world0_def view0_def)
  from sync_needs_mount[of 0 world0 world1 view0] render_world0 v show ?thesis by blast
qed

end
